theory Spec2Isabelle
  imports Complex_Main "HOL-Library.Word"
begin

section \<open>The topology graph of the self-organizing map (src/som.h)\<close>

text \<open>
  The class \<^verbatim>\<open>SomGraph\<close> keeps an \<^verbatim>\<open>unordered_map<unsigned, Node>\<close> of nodes and a
  \<^verbatim>\<open>vector<Edge>\<close> of edges. Modelling decisions:
  \<^item> \<^verbatim>\<open>unsigned\<close> is a 32-bit word; a loop index \<^verbatim>\<open>unsigned i\<close> compared with a
    \<^verbatim>\<open>size()\<close> is read with \<open>unat\<close> and wraps around at \<open>2 ^ 32\<close>, so a loop that the
    wrap-around keeps running is a partial function whose value \<open>None\<close> means that the call does
    not return;
  \<^item> a \<^verbatim>\<open>float\<close> is modelled by the real number it denotes (no NaN, no infinity, no rounding);
    the values that occur in the evaluated scenarios are small integers, which \<^verbatim>\<open>float\<close>
    represents exactly;
  \<^item> the node map is an association list with one entry per key; the order of the list is the
    iteration order of the map, and a new entry is put at the end (insertion order);
  \<^item> every call returns its outcome (\<open>Inl\<close> the exception thrown, \<open>Inr\<close> the value returned)
    together with the graph as the call leaves it, so that a mutation made before a
    \<^verbatim>\<open>throw\<close> would be visible;
  \<^item> the mutex is not modelled: every call is taken as one atomic step.
\<close>

subsection \<open>Data\<close>

type_synonym unsigned = "32 word"

record Node =
  error :: real

record Edge =
  age :: real
  n1 :: unsigned
  n2 :: unsigned

text \<open>The constructor \<^verbatim>\<open>Edge(node1, node2)\<close>: the age starts at 0.\<close>

definition new_Edge :: "unsigned \<Rightarrow> unsigned \<Rightarrow> Edge" where
  "new_Edge node1 node2 = \<lparr>age = 0, n1 = node1, n2 = node2\<rparr>"

type_synonym node_map = "(unsigned \<times> Node) list"

record SomGraph =
  nodes :: node_map
  edges :: "Edge list"

datatype exn = runtime_error string

type_synonym 'a outcome = "(exn + 'a) \<times> SomGraph"

definition empty_graph :: SomGraph where
  "empty_graph = \<lparr>nodes = [], edges = []\<rparr>"

subsection \<open>The operations of the containers\<close>

text \<open>\<^verbatim>\<open>_nodes.find(k) == _nodes.end()\<close>\<close>

definition not_found :: "node_map \<Rightarrow> unsigned \<Rightarrow> bool" where
  "not_found ns k = (map_of ns k = None)"

text \<open>\<^verbatim>\<open>_nodes.emplace(k, v)\<close>: nothing happens when the key is present.\<close>

definition emplace :: "node_map \<Rightarrow> unsigned \<Rightarrow> Node \<Rightarrow> node_map" where
  "emplace ns k v = (if not_found ns k then ns @ [(k, v)] else ns)"

text \<open>\<^verbatim>\<open>_nodes.erase(k)\<close>\<close>

definition erase_key :: "node_map \<Rightarrow> unsigned \<Rightarrow> node_map" where
  "erase_key ns k = filter (\<lambda>kv. fst kv \<noteq> k) ns"

text \<open>
  \<^verbatim>\<open>_nodes[k]\<close>: \<^verbatim>\<open>operator[]\<close> inserts a default-constructed \<^verbatim>\<open>Node\<close> (error 0) when
  the key is absent. \<open>subscript\<close> is the map after the access, \<open>at_key\<close> the node referred to.
\<close>

definition subscript :: "node_map \<Rightarrow> unsigned \<Rightarrow> node_map" where
  "subscript ns k = emplace ns k \<lparr>error = 0\<rparr>"

definition at_key :: "node_map \<Rightarrow> unsigned \<Rightarrow> Node" where
  "at_key ns k = (case map_of ns k of Some v \<Rightarrow> v | None \<Rightarrow> \<lparr>error = 0\<rparr>)"

fun assign_key :: "node_map \<Rightarrow> unsigned \<Rightarrow> Node \<Rightarrow> node_map" where
  "assign_key [] k v = []"
| "assign_key (kv # ns) k v = (if fst kv = k then (k, v) # ns else kv # assign_key ns k v)"

text \<open>\<^verbatim>\<open>_edges.erase(_edges.begin() + i)\<close>: the later entries move down by one.\<close>

definition erase_at :: "Edge list \<Rightarrow> nat \<Rightarrow> Edge list" where
  "erase_at es i = take i es @ drop (Suc i) es"

text \<open>The test that an edge joins the two nodes, in either direction.\<close>

definition joins :: "Edge \<Rightarrow> unsigned \<Rightarrow> unsigned \<Rightarrow> bool" where
  "joins e node1 node2 = (n1 e = node1 \<and> n2 e = node2 \<or> n1 e = node2 \<and> n2 e = node1)"

definition node_ids :: "SomGraph \<Rightarrow> unsigned set" where
  "node_ids g = fst ` set (nodes g)"

subsection \<open>\<^verbatim>\<open>_remove_node\<close> and \<^verbatim>\<open>remove_node\<close>\<close>

text \<open>
  \<^verbatim>\<open>for (unsigned i = 0; i < _edges.size(); i++)
    if (_edges[i].n1 == node || _edges[i].n2 == node) _edges.erase(_edges.begin()+i);\<close>
  The index is incremented after an erasure too.
\<close>

partial_function (option) remove_node_loop :: "unsigned \<Rightarrow> Edge list \<Rightarrow> unsigned \<Rightarrow> Edge list option" where
  "remove_node_loop node es i =
     (if unat i < length es then
        (if n1 (es ! unat i) = node \<or> n2 (es ! unat i) = node
         then remove_node_loop node (erase_at es (unat i)) (i + 1)
         else remove_node_loop node es (i + 1))
      else Some es)"

text \<open>
  The private \<^verbatim>\<open>_remove_node\<close> is named \<open>remove_node_impl\<close> here, since an identifier cannot
  start with an underscore. \<^verbatim>\<open>remove_node\<close> takes the lock and calls it.
\<close>

definition remove_node_impl :: "SomGraph \<Rightarrow> unsigned \<Rightarrow> unit outcome option" where
  "remove_node_impl g node =
     (if not_found (nodes g) node then Some (Inl (runtime_error ''node missing''), g)
      else case remove_node_loop node (edges g) 0 of
        None \<Rightarrow> None
      | Some es \<Rightarrow> Some (Inr (), \<lparr>nodes = erase_key (nodes g) node, edges = es\<rparr>))"

definition remove_node :: "SomGraph \<Rightarrow> unsigned \<Rightarrow> unit outcome option" where
  "remove_node g node = remove_node_impl g node"

subsection \<open>\<^verbatim>\<open>add_node\<close>\<close>

text \<open>
  \<^verbatim>\<open>for (unsigned i = 0; i < _nodes.size() + 1; i++)
    if (_nodes.find(i) == _nodes.end()) { _nodes.emplace(i, Node{}); return i; }
  throw std::runtime_error("failed to add node");\<close>
\<close>

partial_function (option) add_node_loop :: "SomGraph \<Rightarrow> unsigned \<Rightarrow> unsigned outcome option" where
  "add_node_loop g i =
     (if unat i < length (nodes g) + 1 then
        (if not_found (nodes g) i
         then Some (Inr i, g\<lparr>nodes := emplace (nodes g) i \<lparr>error = 0\<rparr>\<rparr>)
         else add_node_loop g (i + 1))
      else Some (Inl (runtime_error ''failed to add node''), g))"

definition add_node :: "SomGraph \<Rightarrow> unsigned outcome option" where
  "add_node g = add_node_loop g 0"

subsection \<open>\<^verbatim>\<open>add_edge\<close>\<close>

text \<open>The search loop; \<open>True\<close> is the early \<^verbatim>\<open>return\<close>.\<close>

partial_function (option) add_edge_loop :: "Edge list \<Rightarrow> unsigned \<Rightarrow> unsigned \<Rightarrow> unsigned \<Rightarrow> bool option" where
  "add_edge_loop es node1 node2 i =
     (if unat i < length es then
        (if joins (es ! unat i) node1 node2 then Some True
         else add_edge_loop es node1 node2 (i + 1))
      else Some False)"

definition add_edge :: "SomGraph \<Rightarrow> unsigned \<Rightarrow> unsigned \<Rightarrow> unit outcome option" where
  "add_edge g node1 node2 =
     (if node1 = node2 then Some (Inl (runtime_error ''cannot add edge to same node''), g)
      else if not_found (nodes g) node1 \<or> not_found (nodes g) node2
        then Some (Inl (runtime_error ''node missing''), g)
      else case add_edge_loop (edges g) node1 node2 0 of
        None \<Rightarrow> None
      | Some True \<Rightarrow> Some (Inr (), g)
      | Some False \<Rightarrow> Some (Inr (), g\<lparr>edges := edges g @ [new_Edge node1 node2]\<rparr>))"

subsection \<open>\<^verbatim>\<open>get_neighbours\<close>\<close>

partial_function (option) get_neighbours_loop :: "Edge list \<Rightarrow> unsigned \<Rightarrow> unsigned list \<Rightarrow> unsigned \<Rightarrow> unsigned list option" where
  "get_neighbours_loop es node neighbours i =
     (if unat i < length es then
        get_neighbours_loop es node
          ((if n1 (es ! unat i) = node then neighbours @ [n2 (es ! unat i)] else neighbours)
           @ (if n2 (es ! unat i) = node then [n1 (es ! unat i)] else []))
          (i + 1)
      else Some neighbours)"

definition get_neighbours :: "SomGraph \<Rightarrow> unsigned \<Rightarrow> unsigned list option" where
  "get_neighbours g node = get_neighbours_loop (edges g) node [] 0"

subsection \<open>\<^verbatim>\<open>purge_old_edges\<close>\<close>

text \<open>
  \<^verbatim>\<open>for (unsigned i = 0; i < _edges.size(); i++)
    if (_edges[i].age > max_age) _edges.erase(_edges.begin()+i);\<close>
\<close>

partial_function (option) purge_old_edges_loop :: "real \<Rightarrow> Edge list \<Rightarrow> unsigned \<Rightarrow> Edge list option" where
  "purge_old_edges_loop max_age es i =
     (if unat i < length es then
        (if age (es ! unat i) > max_age
         then purge_old_edges_loop max_age (erase_at es (unat i)) (i + 1)
         else purge_old_edges_loop max_age es (i + 1))
      else Some es)"

definition purge_old_edges :: "SomGraph \<Rightarrow> real \<Rightarrow> SomGraph option" where
  "purge_old_edges g max_age =
     map_option (\<lambda>es. g\<lparr>edges := es\<rparr>) (purge_old_edges_loop max_age (edges g) 0)"

subsection \<open>\<^verbatim>\<open>purge_orphans\<close>\<close>

text \<open>The inner loop with its \<^verbatim>\<open>break\<close>: the value of \<^verbatim>\<open>is_orphan\<close> after it.\<close>

partial_function (option) is_orphan_loop :: "Edge list \<Rightarrow> unsigned \<Rightarrow> unsigned \<Rightarrow> bool option" where
  "is_orphan_loop es n i =
     (if unat i < length es then
        (if n1 (es ! unat i) = n \<or> n2 (es ! unat i) = n then Some False
         else is_orphan_loop es n (i + 1))
      else Some True)"

text \<open>The outer loop over the map, in its iteration order.\<close>

fun collect_orphans :: "Edge list \<Rightarrow> node_map \<Rightarrow> unsigned list \<Rightarrow> unsigned list option" where
  "collect_orphans es [] orphans = Some orphans"
| "collect_orphans es (kv # ns) orphans =
     (case is_orphan_loop es (fst kv) 0 of
        None \<Rightarrow> None
      | Some is_orphan \<Rightarrow>
          collect_orphans es ns (if is_orphan then orphans @ [fst kv] else orphans))"

text \<open>
  \<^verbatim>\<open>for (unsigned i = 0; i < orphans.size(); i++) _remove_node(orphans[i]);\<close>
  An exception of \<^verbatim>\<open>_remove_node\<close> leaves the loop with the graph as it is then.
\<close>

partial_function (option) remove_orphans_loop :: "SomGraph \<Rightarrow> unsigned list \<Rightarrow> unsigned \<Rightarrow> unsigned list outcome option" where
  "remove_orphans_loop g orphans i =
     (if unat i < length orphans then
        (case remove_node_impl g (orphans ! unat i) of
           None \<Rightarrow> None
         | Some r \<Rightarrow>
             (case fst r of
                Inl e \<Rightarrow> Some (Inl e, snd r)
              | Inr u \<Rightarrow> remove_orphans_loop (snd r) orphans (i + 1)))
      else Some (Inr orphans, g))"

definition purge_orphans :: "SomGraph \<Rightarrow> unsigned list outcome option" where
  "purge_orphans g =
     (case collect_orphans (edges g) (nodes g) [] of
        None \<Rightarrow> None
      | Some orphans \<Rightarrow> remove_orphans_loop g orphans 0)"

subsection \<open>Getters and setters\<close>

partial_function (option) get_edge_age_loop :: "Edge list \<Rightarrow> unsigned \<Rightarrow> unsigned \<Rightarrow> unsigned \<Rightarrow> (exn + real) option" where
  "get_edge_age_loop es node1 node2 i =
     (if unat i < length es then
        (if joins (es ! unat i) node1 node2 then Some (Inr (age (es ! unat i)))
         else get_edge_age_loop es node1 node2 (i + 1))
      else Some (Inl (runtime_error ''edge not found'')))"

definition get_edge_age :: "SomGraph \<Rightarrow> unsigned \<Rightarrow> unsigned \<Rightarrow> (exn + real) option" where
  "get_edge_age g node1 node2 = get_edge_age_loop (edges g) node1 node2 0"

text \<open>\<^verbatim>\<open>return _nodes[node].error;\<close>\<close>

definition get_node_error :: "SomGraph \<Rightarrow> unsigned \<Rightarrow> real outcome" where
  "get_node_error g node =
     (let ns = subscript (nodes g) node in (Inr (error (at_key ns node)), g\<lparr>nodes := ns\<rparr>))"

text \<open>\<^verbatim>\<open>_nodes[node].error = error;\<close>\<close>

definition set_node_error :: "SomGraph \<Rightarrow> unsigned \<Rightarrow> real \<Rightarrow> unit outcome" where
  "set_node_error g node err =
     (let ns = subscript (nodes g) node
      in (Inr (), g\<lparr>nodes := assign_key ns node ((at_key ns node)\<lparr>error := err\<rparr>)\<rparr>))"

text \<open>\<^verbatim>\<open>for (unsigned i = 0; i < _edges.size(); i++) _edges[i].age ++;\<close>\<close>

partial_function (option) increment_age_loop :: "Edge list \<Rightarrow> unsigned \<Rightarrow> Edge list option" where
  "increment_age_loop es i =
     (if unat i < length es then
        increment_age_loop (es[unat i := (es ! unat i)\<lparr>age := age (es ! unat i) + 1\<rparr>]) (i + 1)
      else Some es)"

definition increment_age :: "SomGraph \<Rightarrow> SomGraph option" where
  "increment_age g = map_option (\<lambda>es. g\<lparr>edges := es\<rparr>) (increment_age_loop (edges g) 0)"

text \<open>Both counts are returned as \<^verbatim>\<open>unsigned\<close>.\<close>

definition get_node_count :: "SomGraph \<Rightarrow> unsigned" where
  "get_node_count g = of_nat (length (nodes g))"

definition get_edge_count :: "SomGraph \<Rightarrow> unsigned" where
  "get_edge_count g = of_nat (length (edges g))"

subsection \<open>\<^verbatim>\<open>find_wpu\<close>\<close>

text \<open>
  \<^verbatim>\<open>int wpu = -1; XFLOAT min_e = 0;\<close> The \<^verbatim>\<open>int\<close> is kept as its 32 bits: the assignment
  \<^verbatim>\<open>wpu = n->first\<close> and the final conversion to \<^verbatim>\<open>unsigned\<close> keep the bits, and
  \<^verbatim>\<open>wpu == -1\<close> compares them with those of \<open>-1\<close>. \<^verbatim>\<open>XFLOAT\<close> is \<^verbatim>\<open>float\<close> or
  \<^verbatim>\<open>double\<close>, and either holds every \<^verbatim>\<open>float\<close> exactly. The loop runs over the map in
  its iteration order.
\<close>

fun find_wpu_loop :: "node_map \<Rightarrow> unsigned \<Rightarrow> real \<Rightarrow> unsigned" where
  "find_wpu_loop [] wpu min_e = wpu"
| "find_wpu_loop (n # ns) wpu min_e =
     (let e = error (snd n)
      in if (0 \<le> e \<and> e < min_e) \<or> wpu = - 1
         then find_wpu_loop ns (fst n) e
         else find_wpu_loop ns wpu min_e)"

definition find_wpu :: "SomGraph \<Rightarrow> unsigned" where
  "find_wpu g = find_wpu_loop (nodes g) (- 1) 0"

subsection \<open>The graphs of the scenarios\<close>

text \<open>
  The graph with the nodes 0, 1, 2 and the edges (0,1) and (1,2), both of age \<open>a\<close>. With
  \<open>a = 0\<close> it is what three calls of \<^verbatim>\<open>add_node\<close> and the calls \<^verbatim>\<open>add_edge(0,1)\<close>,
  \<^verbatim>\<open>add_edge(1,2)\<close> build from the empty graph (lemmas \<open>build_nodes\<close>, \<open>build_edges\<close>).
\<close>

definition three_nodes :: node_map where
  "three_nodes = [(0, \<lparr>error = 0\<rparr>), (1, \<lparr>error = 0\<rparr>), (2, \<lparr>error = 0\<rparr>)]"

definition path_graph :: "real \<Rightarrow> SomGraph" where
  "path_graph a = \<lparr>nodes = three_nodes,
                    edges = [\<lparr>age = a, n1 = 0, n2 = 1\<rparr>, \<lparr>age = a, n1 = 1, n2 = 2\<rparr>]\<rparr>"

text \<open>What \<^verbatim>\<open>purge_old_edges(2)\<close> leaves of \<open>path_graph 3\<close>, and \<^verbatim>\<open>purge_orphans\<close> of that.\<close>

definition after_purge :: SomGraph where
  "after_purge = \<lparr>nodes = three_nodes, edges = [\<lparr>age = 3, n1 = 1, n2 = 2\<rparr>]\<rparr>"

definition after_orphans :: SomGraph where
  "after_orphans = \<lparr>nodes = [(1, \<lparr>error = 0\<rparr>), (2, \<lparr>error = 0\<rparr>)],
                     edges = [\<lparr>age = 3, n1 = 1, n2 = 2\<rparr>]\<rparr>"

text \<open>What \<^verbatim>\<open>remove_node(1)\<close> leaves of \<open>path_graph 0\<close>.\<close>

definition after_remove :: SomGraph where
  "after_remove = \<lparr>nodes = [(0, \<lparr>error = 0\<rparr>), (2, \<lparr>error = 0\<rparr>)],
                    edges = [\<lparr>age = 0, n1 = 1, n2 = 2\<rparr>]\<rparr>"

text \<open>The nodes 5, 6, 7 with the errors 3, -1, 1, iterated in this order.\<close>

definition winner_graph :: SomGraph where
  "winner_graph =
     \<lparr>nodes = [(5, \<lparr>error = 3\<rparr>), (6, \<lparr>error = - 1\<rparr>), (7, \<lparr>error = 1\<rparr>)], edges = []\<rparr>"

text \<open>A graph in which the id 1 is free between 0 and 2, and the same graph with node 1 added.\<close>

definition graph_0_2 :: SomGraph where
  "graph_0_2 = \<lparr>nodes = [(0, \<lparr>error = 0\<rparr>), (2, \<lparr>error = 0\<rparr>)],
                 edges = [\<lparr>age = 0, n1 = 0, n2 = 2\<rparr>]\<rparr>"

definition graph_0_2_1 :: SomGraph where
  "graph_0_2_1 = \<lparr>nodes = [(0, \<lparr>error = 0\<rparr>), (2, \<lparr>error = 0\<rparr>), (1, \<lparr>error = 0\<rparr>)],
                   edges = [\<lparr>age = 0, n1 = 0, n2 = 2\<rparr>]\<rparr>"

section \<open>Auxiliary facts\<close>

lemmas graph_defs = three_nodes_def path_graph_def empty_graph_def after_purge_def
  after_orphans_def after_remove_def
lemmas map_defs = not_found_def emplace_def erase_key_def erase_at_def joins_def new_Edge_def

subsection \<open>The loop index\<close>

text \<open>Below the largest value the increment of an \<^verbatim>\<open>unsigned\<close> does not wrap around.\<close>

lemma unat_succ:
  fixes i :: unsigned
  assumes "unat i < n" and "n \<le> 2 ^ 32 - 1"
  shows "unat (i + 1) = Suc (unat i)"
  using assms by (simp add: unat_plus_if')

lemma unat_image_below:
  fixes i :: unsigned
  shows "unat ` {j. j < i} = {0..<unat i}"
proof (rule set_eqI, rule iffI)
  fix n assume "n \<in> unat ` {j. j < i}"
  then show "n \<in> {0..<unat i}" by (auto simp: word_less_nat_alt)
next
  fix n assume "n \<in> {0..<unat i}"
  then have n: "n < unat i" by simp
  have "unat i < 2 ^ 32" using unsigned_less [of i, where 'a = nat] by simp
  with n have "unat (of_nat n :: unsigned) = n"
    by (simp add: unat_of_nat)
  with n show "n \<in> unat ` {j. j < i}"
    by (intro image_eqI [where x = "of_nat n"]) (simp_all add: word_less_nat_alt)
qed

lemma card_below:
  fixes i :: unsigned
  shows "card {j. j < i} = unat i"
proof -
  have "inj_on unat {j. j < i}"
    by (rule inj_onI) (simp add: word_unat_eq_iff)
  then have "card (unat ` {j. j < i}) = card {j. j < i}"
    by (rule card_image)
  then show ?thesis by (simp add: unat_image_below)
qed

lemma below_card:
  fixes i :: unsigned
  assumes "\<forall>j. j < i \<longrightarrow> j \<in> S" and "finite S"
  shows "unat i \<le> card S"
proof -
  have "{j. j < i} \<subseteq> S" using assms(1) by auto
  then have "card {j. j < i} \<le> card S" using assms(2) by (rule card_mono [rotated])
  then show ?thesis by (simp add: card_below)
qed

lemma least_free:
  fixes S :: "unsigned set"
  assumes "k \<notin> S"
  shows "\<exists>m. m \<notin> S \<and> (\<forall>j. j < m \<longrightarrow> j \<in> S)"
  using assms exists_least_iff [of "\<lambda>m. m \<notin> S"] by blast

subsection \<open>The node map\<close>

lemma node_ids_card: "card (node_ids g) \<le> length (nodes g)"
  unfolding node_ids_def
  by (metis card_image_le card_length le_trans List.finite_set)

lemma not_found_iff: "not_found (nodes g) k \<longleftrightarrow> k \<notin> node_ids g"
  by (simp add: not_found_def node_ids_def map_of_eq_None_iff)

text \<open>If all ids below \<open>i\<close> are live, the map has at least \<open>i\<close> entries.\<close>

lemma below_length:
  assumes "\<forall>j. j < i \<longrightarrow> j \<in> node_ids g"
  shows "unat i \<le> length (nodes g)"
proof -
  have "finite (node_ids g)" by (simp add: node_ids_def)
  with assms have "unat i \<le> card (node_ids g)" by (rule below_card)
  with node_ids_card [of g] show ?thesis by simp
qed

lemma some_id_free:
  assumes "length (nodes g) < 2 ^ 32"
  shows "\<exists>k. k \<notin> node_ids g"
proof (rule ccontr)
  assume "\<not> ?thesis"
  then have "node_ids g = UNIV" by auto
  then have "card (node_ids g) = 2 ^ 32" by (simp add: card_word)
  with node_ids_card [of g] assms show False by simp
qed

lemma node_ids_erase_key: "fst ` set (erase_key ns k) = fst ` set ns - {k}"
  by (auto simp: erase_key_def)

lemma remove_node_nodes:
  assumes "remove_node g node = Some (Inr u, g')"
  shows "node_ids g' = node_ids g - {node}"
proof -
  from assms have "nodes g' = erase_key (nodes g) node"
    by (auto simp: remove_node_def remove_node_impl_def split: if_splits option.splits)
  then show ?thesis by (simp add: node_ids_def node_ids_erase_key)
qed

lemma at_key_appended:
  assumes "k \<notin> fst ` set ns"
  shows "at_key (ns @ [(k, v)]) k = v"
proof -
  from assms have "map_of ns k = None" by (simp add: map_of_eq_None_iff)
  then show ?thesis by (simp add: at_key_def map_add_def)
qed

lemma assign_key_appended: "k \<notin> fst ` set ns \<Longrightarrow> assign_key (ns @ [(k, x)]) k v = ns @ [(k, v)]"
  by (induction ns) auto

lemma subscript_absent: "k \<notin> fst ` set ns \<Longrightarrow> subscript ns k = ns @ [(k, \<lparr>error = 0\<rparr>)]"
  by (simp add: subscript_def emplace_def not_found_def map_of_eq_None_iff)

subsection \<open>The loop of \<^verbatim>\<open>add_node\<close>\<close>

text \<open>Started at or below the smallest free id \<open>m\<close>, the loop returns \<open>m\<close>.\<close>

lemma add_node_loop_finds:
  assumes "m \<notin> node_ids g" and "\<forall>j. j < m \<longrightarrow> j \<in> node_ids g" and "i \<le> m"
  shows "add_node_loop g i = Some (Inr m, g\<lparr>nodes := nodes g @ [(m, \<lparr>error = 0\<rparr>)]\<rparr>)"
  using assms(3)
proof (induction "unat m - unat i" arbitrary: i)
  case 0
  then have "i = m" by (simp add: word_le_nat_alt word_unat_eq_iff)
  moreover have "unat m \<le> length (nodes g)" using assms(2) by (rule below_length)
  ultimately show ?case using assms(1)
    by (subst add_node_loop.simps) (simp add: not_found_iff emplace_def)
next
  case (Suc d)
  then have lt: "i < m" by (simp add: word_less_nat_alt)
  then have "i \<in> node_ids g" using assms(2) by simp
  moreover have "unat i \<le> length (nodes g)"
    using assms(2) lt by (intro below_length) auto
  moreover have "unat m \<le> 2 ^ 32 - 1" using unsigned_less [of m, where 'a = nat] by simp
  with lt have s: "unat (i + 1) = Suc (unat i)"
    by (intro unat_succ [of i "unat m"]) (simp_all add: word_less_nat_alt)
  then have "add_node_loop g (i + 1) = Some (Inr m, g\<lparr>nodes := nodes g @ [(m, \<lparr>error = 0\<rparr>)]\<rparr>)"
    using Suc.hyps(2) lt by (intro Suc.hyps(1)) (simp_all add: inc_le)
  ultimately show ?case
    by (subst add_node_loop.simps) (simp add: not_found_iff)
qed

text \<open>
  Whatever the loop returns is a free id: by fixpoint induction, with the invariant that every
  id below the index is live. The invariant bounds the index by the size of the map, which
  closes the branch of the \<^verbatim>\<open>throw\<close>; it holds again after the index has wrapped around to 0.
\<close>

lemma add_node_loop_returns:
  assumes "add_node_loop g i = Some r"
  shows "(\<forall>j. j < i \<longrightarrow> j \<in> node_ids g) \<longrightarrow> (\<exists>m. fst r = Inr m \<and> m \<notin> node_ids g)"
proof (rule add_node_loop.raw_induct
    [where P = "\<lambda>g i r. (\<forall>j. j < i \<longrightarrow> j \<in> node_ids g) \<longrightarrow> (\<exists>m. fst r = Inr m \<and> m \<notin> node_ids g)",
     OF _ assms])
  fix loop :: "SomGraph \<Rightarrow> unsigned \<Rightarrow> unsigned outcome option" and g i r
  assume IH: "\<And>g i r. loop g i = Some r \<Longrightarrow>
      (\<forall>j. j < i \<longrightarrow> j \<in> node_ids g) \<longrightarrow> (\<exists>m. fst r = Inr m \<and> m \<notin> node_ids g)"
    and eq: "(if unat i < length (nodes g) + 1
         then if not_found (nodes g) i
              then Some (Inr i, g\<lparr>nodes := emplace (nodes g) i \<lparr>error = 0\<rparr>\<rparr>)
              else loop g (i + 1)
         else Some (Inl (runtime_error ''failed to add node''), g)) = Some r"
  show "(\<forall>j. j < i \<longrightarrow> j \<in> node_ids g) \<longrightarrow> (\<exists>m. fst r = Inr m \<and> m \<notin> node_ids g)"
  proof
    assume below: "\<forall>j. j < i \<longrightarrow> j \<in> node_ids g"
    then have bound: "unat i < length (nodes g) + 1"
      using below_length [of i g] by simp
    show "\<exists>m. fst r = Inr m \<and> m \<notin> node_ids g"
    proof (cases "not_found (nodes g) i")
      case True
      with bound eq show ?thesis by (auto simp: not_found_iff)
    next
      case False
      then have mem: "i \<in> node_ids g" by (simp add: not_found_iff)
      have "\<forall>j. j < i + 1 \<longrightarrow> j \<in> node_ids g"
      proof (intro allI impI)
        fix j assume "j < i + 1"
        then have "j \<le> i" by (metis inc_le leD leI)
        with mem below show "j \<in> node_ids g" by (auto simp: word_le_less_eq)
      qed
      moreover have "loop g (i + 1) = Some r"
        using eq False bound by simp
      ultimately show ?thesis using IH by blast
    qed
  qed
qed

lemma add_node_returns:
  assumes "add_node g = Some r"
  shows "\<exists>m. fst r = Inr m \<and> m \<notin> node_ids g"
  using add_node_loop_returns [of g 0 r] assms by (simp add: add_node_def)

lemma add_node_finds:
  assumes "m \<notin> node_ids g" and "\<forall>j. j < m \<longrightarrow> j \<in> node_ids g"
  shows "add_node g = Some (Inr m, g\<lparr>nodes := nodes g @ [(m, \<lparr>error = 0\<rparr>)]\<rparr>)"
  unfolding add_node_def using assms by (intro add_node_loop_finds) simp_all

text \<open>
  When all \<open>2 ^ 32\<close> ids are live, the index wraps around for ever: the call neither returns
  an id nor throws.
\<close>

lemma add_node_full:
  assumes "\<forall>m. m \<in> node_ids g"
  shows "add_node g = None"
proof (cases "add_node g")
  case (Some r)
  with add_node_returns [of g r] assms show ?thesis by blast
qed simp

subsection \<open>The search loop of \<^verbatim>\<open>add_edge\<close>\<close>

lemma joins_commute: "joins e a b = joins e b a"
  by (auto simp: joins_def)

lemma joins_new_Edge: "joins (new_Edge a b) a b"
  by (simp add: joins_def new_Edge_def)

lemma add_edge_loop_found:
  assumes "k < length es" and "k < 2 ^ 32" and "joins (es ! k) a b" and "unat i \<le> k"
  shows "add_edge_loop es a b i = Some True"
  using assms(4)
proof (induction "k - unat i" arbitrary: i)
  case 0
  then have "unat i = k" by simp
  with assms(1,3) show ?case by (subst add_edge_loop.simps) simp
next
  case (Suc d)
  then have lt: "unat i < k" by simp
  with assms(2) have "unat (i + 1) = Suc (unat i)" by (intro unat_succ [of i k]) simp_all
  with Suc.hyps(2) lt have "add_edge_loop es a b (i + 1) = Some True"
    by (intro Suc.hyps(1)) simp_all
  with lt assms(1) show ?case by (subst add_edge_loop.simps) simp
qed

lemma add_edge_loop_absent:
  assumes "length es < 2 ^ 32" and "\<forall>e\<in>set es. \<not> joins e a b" and "unat i \<le> length es"
  shows "add_edge_loop es a b i = Some False"
  using assms(3)
proof (induction "length es - unat i" arbitrary: i)
  case 0
  then show ?case by (subst add_edge_loop.simps) simp
next
  case (Suc d)
  then have lt: "unat i < length es" by simp
  with assms(1) have "unat (i + 1) = Suc (unat i)"
    by (intro unat_succ [of i "length es"]) simp_all
  with Suc.hyps(2) lt have "add_edge_loop es a b (i + 1) = Some False"
    by (intro Suc.hyps(1)) simp_all
  moreover from lt assms(2) have "\<not> joins (es ! unat i) a b" by simp
  ultimately show ?case using lt by (subst add_edge_loop.simps) simp
qed

lemma add_edge_present:
  assumes "node1 \<in> node_ids g" and "node2 \<in> node_ids g" and "node1 \<noteq> node2"
    and "k < length (edges g)" and "k < 2 ^ 32" and "joins (edges g ! k) node1 node2"
  shows "add_edge g node1 node2 = Some (Inr (), g)"
proof -
  have "add_edge_loop (edges g) node1 node2 0 = Some True"
    using assms(4-6) by (rule add_edge_loop_found) simp
  with assms(1-3) show ?thesis by (simp add: add_edge_def not_found_iff)
qed

lemma add_edge_new:
  assumes "node1 \<in> node_ids g" and "node2 \<in> node_ids g" and "node1 \<noteq> node2"
    and "length (edges g) < 2 ^ 32" and "\<forall>e\<in>set (edges g). \<not> joins e node1 node2"
  shows "add_edge g node1 node2 = Some (Inr (), g\<lparr>edges := edges g @ [new_Edge node1 node2]\<rparr>)"
proof -
  have "add_edge_loop (edges g) node1 node2 0 = Some False"
    using assms(4,5) by (rule add_edge_loop_absent) simp
  with assms(1-3) show ?thesis by (simp add: add_edge_def not_found_iff)
qed

subsection \<open>The calls of the scenarios, evaluated\<close>

lemma build_nodes:
  "add_node empty_graph = Some (Inr 0, \<lparr>nodes = [(0, \<lparr>error = 0\<rparr>)], edges = []\<rparr>)"
  "add_node \<lparr>nodes = [(0, \<lparr>error = 0\<rparr>)], edges = []\<rparr>
     = Some (Inr 1, \<lparr>nodes = [(0, \<lparr>error = 0\<rparr>), (1, \<lparr>error = 0\<rparr>)], edges = []\<rparr>)"
  "add_node \<lparr>nodes = [(0, \<lparr>error = 0\<rparr>), (1, \<lparr>error = 0\<rparr>)], edges = []\<rparr>
     = Some (Inr 2, \<lparr>nodes = three_nodes, edges = []\<rparr>)"
  by (simp_all add: add_node_def add_node_loop.simps graph_defs map_defs)

lemma build_edges:
  "add_edge \<lparr>nodes = three_nodes, edges = []\<rparr> 0 1
     = Some (Inr (), \<lparr>nodes = three_nodes, edges = [\<lparr>age = 0, n1 = 0, n2 = 1\<rparr>]\<rparr>)"
  "add_edge \<lparr>nodes = three_nodes, edges = [\<lparr>age = 0, n1 = 0, n2 = 1\<rparr>]\<rparr> 1 2
     = Some (Inr (), path_graph 0)"
  by (simp_all add: add_edge_def add_edge_loop.simps graph_defs map_defs)

lemma three_ticks:
  "increment_age (path_graph 0) = Some (path_graph 1)"
  "increment_age (path_graph 1) = Some (path_graph 2)"
  "increment_age (path_graph 2) = Some (path_graph 3)"
  by (simp_all add: increment_age_def increment_age_loop.simps graph_defs)

lemma ages_after_ticks:
  "get_edge_age (path_graph 3) 0 1 = Some (Inr 3)"
  "get_edge_age (path_graph 3) 1 2 = Some (Inr 3)"
  by (simp_all add: get_edge_age_def get_edge_age_loop.simps graph_defs map_defs)

lemma purge_path: "purge_old_edges (path_graph 3) 2 = Some after_purge"
  by (simp add: purge_old_edges_def purge_old_edges_loop.simps graph_defs map_defs)

lemma orphans_after_purge: "purge_orphans after_purge = Some (Inr [0], after_orphans)"
  by (simp add: purge_orphans_def is_orphan_loop.simps remove_orphans_loop.simps
      remove_node_impl_def remove_node_loop.simps graph_defs map_defs)

lemma remove_middle: "remove_node (path_graph 0) 1 = Some (Inr (), after_remove)"
  by (simp add: remove_node_def remove_node_impl_def remove_node_loop.simps graph_defs map_defs)

lemma neighbours_after_remove: "get_neighbours after_remove 2 = Some [1]"
  by (simp add: get_neighbours_def get_neighbours_loop.simps after_remove_def)

lemma counts:
  "get_edge_count (path_graph 0) = 2"
  "get_edge_count after_purge = 1"
  "get_node_count after_orphans = 2"
  by (simp_all add: get_edge_count_def get_node_count_def graph_defs)

lemma graph_0_2_add: "add_node graph_0_2 = Some (Inr 1, graph_0_2_1)"
  by (simp add: add_node_def graph_0_2_def graph_0_2_1_def add_node_loop.simps map_defs)

lemma graph_0_2_remove: "remove_node graph_0_2_1 1 = Some (Inr (), graph_0_2)"
  by (simp add: remove_node_def remove_node_impl_def graph_0_2_def graph_0_2_1_def
      remove_node_loop.simps map_defs)

section \<open>The claims\<close>

subsection \<open>Removing a node\<close>

text \<open>
  Claim C1 says that after every operation every edge joins two distinct live nodes, and that
  \<^verbatim>\<open>remove_node(x)\<close> removes every edge incident to \<open>x\<close>. The loop of \<^verbatim>\<open>_remove_node\<close>
  increments its index after an erasure as well, so the edge that moves into the erased
  position is never examined. In the graph with the nodes 0, 1, 2 and the edges (0,1), (1,2),
  \<^verbatim>\<open>remove_node(1)\<close> succeeds, erases (0,1) and stops: the edge (1,2) stays, node 1 is no
  longer live, and node 2 still reports 1 as a neighbour.
\<close>

theorem remove_node_leaves_incident_edge:
  "remove_node (path_graph 0) 1 = Some (Inr (), after_remove)
   \<and> edges after_remove = [\<lparr>age = 0, n1 = 1, n2 = 2\<rparr>]
   \<and> 1 \<notin> node_ids after_remove
   \<and> get_neighbours after_remove 2 = Some [1]"
proof (intro conjI)
  show "remove_node (path_graph 0) 1 = Some (Inr (), after_remove)" by (rule remove_middle)
  show "edges after_remove = [\<lparr>age = 0, n1 = 1, n2 = 2\<rparr>]" by (simp add: after_remove_def)
  show "1 \<notin> node_ids after_remove" by (simp add: node_ids_def after_remove_def)
  show "get_neighbours after_remove 2 = Some [1]" by (rule neighbours_after_remove)
qed

subsection \<open>Purging old edges\<close>

text \<open>
  Claim C2 says that \<^verbatim>\<open>purge_old_edges(max_age)\<close> removes every edge whose age is greater
  than \<open>max_age\<close>. Its loop has the same increment after an erasure. With the edges (0,1) and
  (1,2), both of age 3, \<^verbatim>\<open>purge_old_edges(2)\<close> erases (0,1) and stops: the edge (1,2), of
  age \<open>3 > 2\<close>, is still in the graph.
\<close>

theorem purge_old_edges_skips_next:
  "purge_old_edges (path_graph 3) 2 = Some after_purge
   \<and> edges after_purge = [\<lparr>age = 3, n1 = 1, n2 = 2\<rparr>]
   \<and> age (edges after_purge ! 0) > 2"
proof (intro conjI)
  show "purge_old_edges (path_graph 3) 2 = Some after_purge" by (rule purge_path)
  show "edges after_purge = [\<lparr>age = 3, n1 = 1, n2 = 2\<rparr>]" by (simp add: after_purge_def)
  show "age (edges after_purge ! 0) > 2" by (simp add: after_purge_def)
qed

text \<open>
  Claim C3 is the scenario from the empty graph: three nodes are created and get the ids 0, 1,
  2; the edges (0,1) and (1,2) are added and the edge count is 2; after three calls of
  \<^verbatim>\<open>increment_age\<close> both edges have age 3. The claim then expects \<^verbatim>\<open>purge_old_edges(2)\<close>
  to leave no edge and \<^verbatim>\<open>purge_orphans\<close> to return all three nodes. The code leaves the
  edge (1,2): the edge count is 1, \<^verbatim>\<open>purge_orphans\<close> returns node 0 alone and two nodes
  remain.
\<close>

theorem scenario_purge:
  "add_node empty_graph = Some (Inr 0, \<lparr>nodes = [(0, \<lparr>error = 0\<rparr>)], edges = []\<rparr>)
   \<and> add_node \<lparr>nodes = [(0, \<lparr>error = 0\<rparr>)], edges = []\<rparr>
       = Some (Inr 1, \<lparr>nodes = [(0, \<lparr>error = 0\<rparr>), (1, \<lparr>error = 0\<rparr>)], edges = []\<rparr>)
   \<and> add_node \<lparr>nodes = [(0, \<lparr>error = 0\<rparr>), (1, \<lparr>error = 0\<rparr>)], edges = []\<rparr>
       = Some (Inr 2, \<lparr>nodes = three_nodes, edges = []\<rparr>)
   \<and> add_edge \<lparr>nodes = three_nodes, edges = []\<rparr> 0 1
       = Some (Inr (), \<lparr>nodes = three_nodes, edges = [\<lparr>age = 0, n1 = 0, n2 = 1\<rparr>]\<rparr>)
   \<and> add_edge \<lparr>nodes = three_nodes, edges = [\<lparr>age = 0, n1 = 0, n2 = 1\<rparr>]\<rparr> 1 2
       = Some (Inr (), path_graph 0)
   \<and> get_edge_count (path_graph 0) = 2
   \<and> increment_age (path_graph 0) = Some (path_graph 1)
   \<and> increment_age (path_graph 1) = Some (path_graph 2)
   \<and> increment_age (path_graph 2) = Some (path_graph 3)
   \<and> get_edge_age (path_graph 3) 0 1 = Some (Inr 3)
   \<and> get_edge_age (path_graph 3) 1 2 = Some (Inr 3)
   \<and> purge_old_edges (path_graph 3) 2 = Some after_purge
   \<and> get_edge_count after_purge = 1
   \<and> purge_orphans after_purge = Some (Inr [0], after_orphans)
   \<and> get_node_count after_orphans = 2"
  by (intro conjI build_nodes build_edges counts three_ticks ages_after_ticks purge_path
      orphans_after_purge)

subsection \<open>The winner\<close>

text \<open>
  Claim C4, as amended. With the nodes 5, 6, 7 of errors 3, -1, 1, visited in this order,
  \<^verbatim>\<open>find_wpu\<close> returns node 7: node 5 is accepted first, node 6 has a negative error and
  is passed over, and the error 1 of node 7 is non-negative and below 3.
\<close>

theorem find_wpu_scenario: "find_wpu winner_graph = 7"
  by (simp add: find_wpu_def winner_graph_def)

text \<open>Claim C4 as stated expects node 6.\<close>

theorem find_wpu_scenario_counterexample: "find_wpu winner_graph \<noteq> 6"
  by (simp add: find_wpu_def winner_graph_def)

text \<open>
  Claim C10. When the graph has no nodes, \<^verbatim>\<open>find_wpu\<close> raises nothing and returns
  4294967295, the conversion of the sentinel \<open>-1\<close> to \<^verbatim>\<open>unsigned\<close>; a graph whose only node
  has the id 4294967295 gives the same answer, so the caller cannot tell the two apart.
\<close>

theorem find_wpu_no_nodes:
  "find_wpu \<lparr>nodes = [], edges = es\<rparr> = 4294967295
   \<and> unat (find_wpu \<lparr>nodes = [], edges = es\<rparr>) = 2 ^ 32 - 1
   \<and> find_wpu \<lparr>nodes = [(4294967295, \<lparr>error = e\<rparr>)], edges = es\<rparr>
       = find_wpu \<lparr>nodes = [], edges = es\<rparr>"
  by (simp add: find_wpu_def unsigned_minus_1_eq_mask mask_eq_exp_minus_1)

subsection \<open>The error of a node that is not live\<close>

text \<open>
  Claim C5, as amended. For an id that is not a live node, neither accessor fails:
  \<^verbatim>\<open>get_node_error\<close> returns 0 and leaves a new node of error 0 under that id, and
  \<^verbatim>\<open>set_node_error\<close> leaves a new node with the error given.
\<close>

theorem node_error_upsert:
  assumes "node \<notin> node_ids g"
  shows "get_node_error g node = (Inr 0, g\<lparr>nodes := nodes g @ [(node, \<lparr>error = 0\<rparr>)]\<rparr>)
       \<and> set_node_error g node v = (Inr (), g\<lparr>nodes := nodes g @ [(node, \<lparr>error = v\<rparr>)]\<rparr>)"
  using assms
  by (simp add: get_node_error_def set_node_error_def node_ids_def subscript_absent
      at_key_appended assign_key_appended)

theorem node_error_upsert_witness:
  "3 \<notin> node_ids (path_graph 0)
   \<and> get_node_error (path_graph 0) 3
       = (Inr 0, \<lparr>nodes = three_nodes @ [(3, \<lparr>error = 0\<rparr>)], edges = edges (path_graph 0)\<rparr>)
   \<and> set_node_error (path_graph 0) 3 5
       = (Inr (), \<lparr>nodes = three_nodes @ [(3, \<lparr>error = 5\<rparr>)], edges = edges (path_graph 0)\<rparr>)"
proof -
  have absent: "3 \<notin> node_ids (path_graph 0)"
    by (simp add: node_ids_def graph_defs)
  from node_error_upsert [OF absent, of 5] absent show ?thesis
    by (simp add: path_graph_def)
qed

text \<open>
  Claim C5 as stated expects both calls to fail and to create no entry. On the empty graph
  and the id 7 both return normally, and each leaves a node 7.
\<close>

theorem node_error_upsert_counterexample:
  "7 \<notin> node_ids empty_graph
   \<and> get_node_error empty_graph 7 = (Inr 0, \<lparr>nodes = [(7, \<lparr>error = 0\<rparr>)], edges = []\<rparr>)
   \<and> set_node_error empty_graph 7 2 = (Inr (), \<lparr>nodes = [(7, \<lparr>error = 2\<rparr>)], edges = []\<rparr>)
   \<and> 7 \<in> node_ids (snd (get_node_error empty_graph 7))
   \<and> 7 \<in> node_ids (snd (set_node_error empty_graph 7 2))"
  by (simp add: get_node_error_def set_node_error_def node_ids_def empty_graph_def
      subscript_def emplace_def not_found_def at_key_def)

subsection \<open>Creating a node\<close>

text \<open>
  Claim C6. Whenever some id is free, \<^verbatim>\<open>add_node\<close> returns the smallest id \<open>m\<close> that is not
  live and makes it live; and if \<^verbatim>\<open>remove_node(m)\<close> then succeeds, the next \<^verbatim>\<open>add_node\<close>
  returns \<open>m\<close> again. (In the one state without a free id, with all \<open>2 ^ 32\<close> ids live, the call
  does not return: lemma \<open>add_node_full\<close>.)
\<close>

theorem add_node_smallest_unused:
  assumes "k \<notin> node_ids g"
  shows "\<exists>m g1. add_node g = Some (Inr m, g1)
           \<and> m \<notin> node_ids g \<and> (\<forall>j. j < m \<longrightarrow> j \<in> node_ids g)
           \<and> node_ids g1 = insert m (node_ids g)
           \<and> (\<forall>g2. remove_node g1 m = Some (Inr (), g2) \<longrightarrow>
                 (\<exists>g3. add_node g2 = Some (Inr m, g3)))"
proof -
  from assms obtain m where free: "m \<notin> node_ids g" and least: "\<forall>j. j < m \<longrightarrow> j \<in> node_ids g"
    using least_free [of k "node_ids g"] by blast
  define g1 where "g1 = g\<lparr>nodes := nodes g @ [(m, \<lparr>error = 0\<rparr>)]\<rparr>"
  have ret: "add_node g = Some (Inr m, g1)"
    unfolding g1_def using free least by (rule add_node_finds)
  have ids1: "node_ids g1 = insert m (node_ids g)"
    by (auto simp: g1_def node_ids_def)
  have again: "\<exists>g3. add_node g2 = Some (Inr m, g3)" if "remove_node g1 m = Some (Inr (), g2)" for g2
  proof -
    from that have "node_ids g2 = node_ids g1 - {m}" by (rule remove_node_nodes)
    with ids1 free have "node_ids g2 = node_ids g" by auto
    with free least show ?thesis using add_node_finds [of m g2] by simp
  qed
  from ret free least ids1 again show ?thesis by blast
qed

theorem add_node_smallest_unused_witness:
  "7 \<notin> node_ids graph_0_2
   \<and> add_node graph_0_2 = Some (Inr 1, graph_0_2_1)
   \<and> 1 \<notin> node_ids graph_0_2 \<and> 0 \<in> node_ids graph_0_2
   \<and> remove_node graph_0_2_1 1 = Some (Inr (), graph_0_2)
   \<and> (\<exists>g3. add_node graph_0_2 = Some (Inr 1, g3))"
proof -
  have free: "7 \<notin> node_ids graph_0_2" by (simp add: node_ids_def graph_0_2_def)
  have zero: "0 \<in> node_ids graph_0_2" by (simp add: node_ids_def graph_0_2_def)
  from add_node_smallest_unused [OF free] graph_0_2_add graph_0_2_remove
  show ?thesis using free zero by auto
qed

text \<open>
  Claim C9. \<^verbatim>\<open>add_node\<close> never throws. Among the numbers 0 to \<open>n\<close>, where \<open>n\<close> is the number
  of entries of the map, one is not the id of a live node; no call returns with the exception
  \<^verbatim>\<open>"failed to add node"\<close> (or any other); and with fewer than \<open>2 ^ 32\<close> nodes the call
  returns an id, which is free and at most \<open>n\<close>.
\<close>

theorem add_node_never_throws:
  "(\<exists>k\<le>length (nodes g). k \<notin> unat ` node_ids g)
   \<and> (\<forall>e g'. add_node g \<noteq> Some (Inl e, g'))
   \<and> (length (nodes g) < 2 ^ 32 \<longrightarrow>
        (\<exists>m g'. add_node g = Some (Inr m, g') \<and> unat m \<le> length (nodes g) \<and> m \<notin> node_ids g))"
proof (intro conjI allI impI)
  show "\<exists>k\<le>length (nodes g). k \<notin> unat ` node_ids g"
  proof (rule ccontr)
    assume "\<not> ?thesis"
    then have "{0..length (nodes g)} \<subseteq> unat ` node_ids g" by auto
    moreover have "finite (unat ` node_ids g)" by (simp add: node_ids_def)
    ultimately have "card {0..length (nodes g)} \<le> card (unat ` node_ids g)"
      by (rule card_mono [rotated])
    also have "\<dots> \<le> card (node_ids g)" by (rule card_image_le) (simp add: node_ids_def)
    also have "\<dots> \<le> length (nodes g)" by (rule node_ids_card)
    finally show False by simp
  qed
next
  fix e g'
  show "add_node g \<noteq> Some (Inl e, g')"
    using add_node_returns [of g "(Inl e, g')"] by auto
next
  assume "length (nodes g) < 2 ^ 32"
  then obtain k where "k \<notin> node_ids g" using some_id_free by blast
  then obtain m where free: "m \<notin> node_ids g" and least: "\<forall>j. j < m \<longrightarrow> j \<in> node_ids g"
    using least_free [of k "node_ids g"] by blast
  from least have "unat m \<le> length (nodes g)" by (rule below_length)
  with add_node_finds [OF free least] free
  show "\<exists>m g'. add_node g = Some (Inr m, g') \<and> unat m \<le> length (nodes g) \<and> m \<notin> node_ids g"
    by blast
qed

theorem add_node_never_throws_witness:
  "length (nodes graph_0_2) < 2 ^ 32
   \<and> (\<exists>m g'. add_node graph_0_2 = Some (Inr m, g') \<and> unat m \<le> length (nodes graph_0_2)
         \<and> m \<notin> node_ids graph_0_2)
   \<and> add_node graph_0_2 \<noteq> Some (Inl (runtime_error ''failed to add node''), graph_0_2)"
proof -
  have small: "length (nodes graph_0_2) < 2 ^ 32" by (simp add: graph_0_2_def)
  with add_node_never_throws [of graph_0_2] show ?thesis by blast
qed

subsection \<open>Adding an edge\<close>

text \<open>
  Claim C7. A call of \<^verbatim>\<open>add_edge\<close> with equal endpoints throws
  \<^verbatim>\<open>"cannot add edge to same node"\<close>, a call with distinct endpoints of which one is not
  live throws \<^verbatim>\<open>"node missing"\<close>; both return the graph as it was. A call that throws is
  one of these two, and leaves the graph unchanged.
\<close>

theorem add_edge_failure_unchanged:
  "(node1 = node2 \<longrightarrow>
      add_edge g node1 node2 = Some (Inl (runtime_error ''cannot add edge to same node''), g))
   \<and> (node1 \<noteq> node2 \<and> (node1 \<notin> node_ids g \<or> node2 \<notin> node_ids g) \<longrightarrow>
      add_edge g node1 node2 = Some (Inl (runtime_error ''node missing''), g))
   \<and> (\<forall>e g'. add_edge g node1 node2 = Some (Inl e, g') \<longrightarrow>
        g' = g \<and> (node1 = node2 \<or> node1 \<notin> node_ids g \<or> node2 \<notin> node_ids g))"
  by (auto simp: add_edge_def not_found_iff split: option.splits bool.splits)

theorem add_edge_failure_unchanged_witness:
  "add_edge (path_graph 0) 1 1
     = Some (Inl (runtime_error ''cannot add edge to same node''), path_graph 0)
   \<and> (1::unsigned) \<noteq> 7 \<and> 7 \<notin> node_ids (path_graph 0)
   \<and> add_edge (path_graph 0) 1 7 = Some (Inl (runtime_error ''node missing''), path_graph 0)"
proof -
  have absent: "7 \<notin> node_ids (path_graph 0)" by (simp add: node_ids_def graph_defs)
  from add_edge_failure_unchanged [of 1 1 "path_graph 0"]
    add_edge_failure_unchanged [of 1 7 "path_graph 0"] absent
  show ?thesis by simp
qed

text \<open>
  Claim C8. For live, distinct nodes (and fewer than \<open>2 ^ 32\<close> edges, so that the search
  loop ends) \<^verbatim>\<open>add_edge(a,b)\<close> succeeds, and a second call, with the endpoints in either
  order, succeeds and leaves the graph as the first call left it. The two calls together add
  one edge when none joined the nodes before, and none otherwise.
\<close>

theorem add_edge_idempotent:
  assumes "node1 \<in> node_ids g" and "node2 \<in> node_ids g" and "node1 \<noteq> node2"
    and "length (edges g) < 2 ^ 32"
  shows "\<exists>g1. add_edge g node1 node2 = Some (Inr (), g1)
           \<and> add_edge g1 node1 node2 = Some (Inr (), g1)
           \<and> add_edge g1 node2 node1 = Some (Inr (), g1)
           \<and> get_edge_count g1 =
               (if \<exists>e\<in>set (edges g). joins e node1 node2 then get_edge_count g
                else get_edge_count g + 1)"
proof (cases "\<exists>e\<in>set (edges g). joins e node1 node2")
  case True
  then obtain k where k: "k < length (edges g)" "joins (edges g ! k) node1 node2"
    by (auto simp: in_set_conv_nth)
  with assms(4) have k32: "k < 2 ^ 32" by simp
  from k(2) have k': "joins (edges g ! k) node2 node1" by (simp add: joins_commute)
  have "add_edge g node1 node2 = Some (Inr (), g)"
    using assms(1-3) k(1) k32 k(2) by (rule add_edge_present)
  moreover have "add_edge g node2 node1 = Some (Inr (), g)"
    using assms(2,1) assms(3) [symmetric] k(1) k32 k' by (rule add_edge_present)
  ultimately show ?thesis using True by auto
next
  case False
  define g1 where "g1 = g\<lparr>edges := edges g @ [new_Edge node1 node2]\<rparr>"
  have ids: "node_ids g1 = node_ids g" by (simp add: g1_def node_ids_def)
  have first: "add_edge g node1 node2 = Some (Inr (), g1)"
    unfolding g1_def using assms False by (intro add_edge_new) simp_all
  have len: "length (edges g) < length (edges g1)" by (simp add: g1_def)
  have at: "edges g1 ! length (edges g) = new_Edge node1 node2" by (simp add: g1_def)
  have "add_edge g1 node1 node2 = Some (Inr (), g1)"
    using assms(1-3) len assms(4) unfolding ids [symmetric]
    by (rule add_edge_present) (simp add: at joins_new_Edge)
  moreover have "add_edge g1 node2 node1 = Some (Inr (), g1)"
    using assms(2,1) assms(3) [symmetric] len assms(4) unfolding ids [symmetric]
    by (rule add_edge_present) (simp add: at joins_new_Edge joins_commute [of _ node2 node1])
  moreover have "get_edge_count g1 = get_edge_count g + 1"
    by (simp add: g1_def get_edge_count_def)
  ultimately show ?thesis using first False by auto
qed

theorem add_edge_idempotent_witness:
  "1 \<in> node_ids (path_graph 0) \<and> 2 \<in> node_ids (path_graph 0) \<and> (1::unsigned) \<noteq> 2
   \<and> length (edges \<lparr>nodes = three_nodes, edges = [\<lparr>age = 0, n1 = 0, n2 = 1\<rparr>]\<rparr>) < 2 ^ 32
   \<and> add_edge \<lparr>nodes = three_nodes, edges = [\<lparr>age = 0, n1 = 0, n2 = 1\<rparr>]\<rparr> 1 2
       = Some (Inr (), path_graph 0)
   \<and> add_edge (path_graph 0) 1 2 = Some (Inr (), path_graph 0)
   \<and> add_edge (path_graph 0) 2 1 = Some (Inr (), path_graph 0)
   \<and> get_edge_count (path_graph 0)
       = get_edge_count \<lparr>nodes = three_nodes, edges = [\<lparr>age = 0, n1 = 0, n2 = 1\<rparr>]\<rparr> + 1"
proof -
  let ?g = "\<lparr>nodes = three_nodes, edges = [\<lparr>age = 0, n1 = 0, n2 = 1\<rparr>]\<rparr>"
  have live: "1 \<in> node_ids ?g" "2 \<in> node_ids ?g"
    by (simp_all add: node_ids_def graph_defs)
  have distinct: "(1::unsigned) \<noteq> 2" by simp
  have small: "length (edges ?g) < 2 ^ 32" by simp
  have absent: "\<not> (\<exists>e\<in>set (edges ?g). joins e 1 2)" by (simp add: joins_def)
  from add_edge_idempotent [OF live distinct small] build_edges(2) absent
  have "add_edge (path_graph 0) 1 2 = Some (Inr (), path_graph 0)
      \<and> add_edge (path_graph 0) 2 1 = Some (Inr (), path_graph 0)
      \<and> get_edge_count (path_graph 0) = get_edge_count ?g + 1"
    by auto
  moreover have "1 \<in> node_ids (path_graph 0)" "2 \<in> node_ids (path_graph 0)"
    by (simp_all add: node_ids_def graph_defs)
  ultimately show ?thesis using build_edges(2) distinct small by blast
qed

end
